theory Spec2Isabelle
  imports Complex_Main "HOL-Library.Monad_Syntax"
begin

section \<open>The MORPH constitutive evaluator\<close>

text \<open>
  Scalars of the evaluator are modelled as real numbers. An evaluation that would leave
  the reals (a zero divisor, a non-positive base of the fractional power) or that raises
  on a malformed shape has the value \<open>None\<close>; rounding is not modelled.
\<close>

subsection \<open>The algebraic sigmoid\<close>

text \<open>
  \<^verbatim>\<open>def sigmoid(x): return 1 / sqrt(1 + x**2)\<close> (the same lambda is used in
  \<^verbatim>\<open>morph_uniaxial\<close>). The divisor is at least one, so the quotient is always finite.
\<close>

definition sigmoid :: "real \<Rightarrow> real" where
  "sigmoid x = 1 / sqrt (1 + x\<^sup>2)"

subsection \<open>Tracked scalar operations\<close>

text \<open>Python's \<^verbatim>\<open>xs[i]\<close> for a literal index \<open>i \<ge> 0\<close>: IndexError is \<open>None\<close>.\<close>

definition index :: "'a list \<Rightarrow> nat \<Rightarrow> 'a option" where
  "index xs i = (if i < length xs then Some (xs ! i) else None)"

text \<open>\<^verbatim>\<open>a / b\<close> on floats: a zero divisor gives a non-finite value, here \<open>None\<close>.\<close>

definition fdiv :: "real \<Rightarrow> real \<Rightarrow> real option" where
  "fdiv a b = (if b = 0 then None else Some (a / b))"

text \<open>\<^verbatim>\<open>a ** b\<close> for a fractional exponent: finite and real only on a positive base.\<close>

definition fpow :: "real \<Rightarrow> real \<Rightarrow> real option" where
  "fpow a b = (if 0 < a then Some (a powr b) else None)"

subsection \<open>Second-order tensors in three dimensions\<close>

text \<open>
  A tensor is its nine entries, row by row. The operations below are the ones of the
  tensor library that \<^verbatim>\<open>morph\<close> applies: elementwise arithmetic, \<^verbatim>\<open>@\<close>, \<^verbatim>\<open>sym\<close>, \<^verbatim>\<open>dev\<close>,
  \<^verbatim>\<open>det\<close>, \<^verbatim>\<open>inv\<close>, \<^verbatim>\<open>triu_1d\<close> and \<^verbatim>\<open>from_triu_1d\<close>.
\<close>

datatype mat = Mat real real real  real real real  real real real

fun tmap :: "(real \<Rightarrow> real) \<Rightarrow> mat \<Rightarrow> mat" where
  "tmap f (Mat a b c d e g h i j) =
     Mat (f a) (f b) (f c)  (f d) (f e) (f g)  (f h) (f i) (f j)"

fun tmap2 :: "(real \<Rightarrow> real \<Rightarrow> real) \<Rightarrow> mat \<Rightarrow> mat \<Rightarrow> mat" where
  "tmap2 f (Mat a b c d e g h i j) (Mat a' b' c' d' e' g' h' i' j') =
     Mat (f a a') (f b b') (f c c')  (f d d') (f e e') (f g g')  (f h h') (f i i') (f j j')"

definition smul :: "real \<Rightarrow> mat \<Rightarrow> mat" where
  "smul s A = tmap (\<lambda>x. s * x) A"

definition tadd :: "mat \<Rightarrow> mat \<Rightarrow> mat" where
  "tadd A B = tmap2 (\<lambda>x y. x + y) A B"

definition tsub :: "mat \<Rightarrow> mat \<Rightarrow> mat" where
  "tsub A B = tmap2 (\<lambda>x y. x - y) A B"

text \<open>Tensor divided by a scalar; a zero divisor makes every entry non-finite.\<close>

definition tdiv :: "mat \<Rightarrow> real \<Rightarrow> mat option" where
  "tdiv A s = (if s = 0 then None else Some (tmap (\<lambda>x. x / s) A))"

definition eye :: mat where
  "eye = Mat 1 0 0  0 1 0  0 0 1"

fun transpose_t :: "mat \<Rightarrow> mat" where
  "transpose_t (Mat a b c d e g h i j) = Mat a d h  b e i  c g j"

fun trace :: "mat \<Rightarrow> real" where
  "trace (Mat a b c d e g h i j) = a + e + j"

fun matmul :: "mat \<Rightarrow> mat \<Rightarrow> mat" where
  "matmul (Mat a b c d e g h i j) (Mat a' b' c' d' e' g' h' i' j') =
     Mat (a * a' + b * d' + c * h') (a * b' + b * e' + c * i') (a * c' + b * g' + c * j')
         (d * a' + e * d' + g * h') (d * b' + e * e' + g * i') (d * c' + e * g' + g * j')
         (h * a' + i * d' + j * h') (h * b' + i * e' + j * i') (h * c' + i * g' + j * j')"

definition sym_t :: "mat \<Rightarrow> mat" where
  "sym_t A = tmap (\<lambda>x. x / 2) (tadd A (transpose_t A))"

definition dev :: "mat \<Rightarrow> mat" where
  "dev A = tsub A (smul (trace A / 3) eye)"

fun det :: "mat \<Rightarrow> real" where
  "det (Mat a b c d e g h i j) =
     a * (e * j - g * i) - b * (d * j - g * h) + c * (d * i - e * h)"

fun adjugate :: "mat \<Rightarrow> mat" where
  "adjugate (Mat a b c d e g h i j) =
     Mat (e * j - g * i) (c * i - b * j) (b * g - c * e)
         (g * h - d * j) (a * j - c * h) (c * d - a * g)
         (d * i - e * h) (b * h - a * i) (a * e - b * d)"

text \<open>The inverse; a singular tensor has none.\<close>

definition inv_t :: "mat \<Rightarrow> mat option" where
  "inv_t A = tdiv (adjugate A) (det A)"

text \<open>Upper-triangle entries, row by row, and the symmetric tensor recovered from six of them.\<close>

fun triu_1d :: "mat \<Rightarrow> real list" where
  "triu_1d (Mat a b c d e g h i j) = [a, b, c, e, g, j]"

fun from_triu_1d :: "real list \<Rightarrow> mat option" where
  "from_triu_1d [a, b, c, e, g, j] = Some (Mat a b c  b e g  c g j)"
| "from_triu_1d _ = None"

text \<open>
  The eigenvalue routine (ascending eigenvalues of a symmetric tensor) and the matrix
  exponential of the tensor library are parameters of the model.
\<close>

record linalg =
  eigvalsh :: "mat \<Rightarrow> real list"
  expm :: "mat \<Rightarrow> mat"

text \<open>\<^verbatim>\<open>\<lambda>[-1] - \<lambda>[0]\<close> for \<^verbatim>\<open>\<lambda> = eigvalsh(A)\<close>: the Tresca-type invariant.\<close>

definition tresca :: "linalg \<Rightarrow> mat \<Rightarrow> real option" where
  "tresca la A = (let ev = eigvalsh la A in if ev = [] then None else Some (last ev - hd ev))"

text \<open>\<^verbatim>\<open>if_else(cond, true, false)\<close>: both arguments are evaluated, one is selected.\<close>

definition if_else :: "bool \<Rightarrow> 'a \<Rightarrow> 'a \<Rightarrow> 'a" where
  "if_else c t f = (if c then t else f)"

text \<open>
  Modelled from the spec: \<^verbatim>\<open>try_stack(arrays, fallback)\<close> of the tensor library is not
  under src/. It returns the stacked arrays, and the fallback when the stacking fails.
  What makes the stacking fail lies outside the arrays of reals of this model, so
  whether the stacking of a call succeeds is the input \<open>stackable\<close> of that call.
\<close>

definition try_stack :: "bool \<Rightarrow> real list list \<Rightarrow> real list \<Rightarrow> real list" where
  "try_stack stackable arrays fallback = (if stackable then concat arrays else fallback)"

subsection \<open>The tensor variant: \<^verbatim>\<open>morph(C, statevars, p)\<close>\<close>

text \<open>
  The evaluator is split at line 112 of the source into the quantities that precede the
  normalisation (lines 79-98 and 109-111), the normalisation with its guard (line 112),
  and the stresses and the new state (lines 105-107 and 115-122).
\<close>

record kinematics =
  k_CTSn :: real
  k_SAn :: mat
  k_CG :: mat
  k_invC :: mat
  k_CTG :: real
  k_CTS :: real
  k_LG :: mat
  k_LTG :: real

definition morph_kinematics :: "linalg \<Rightarrow> mat \<Rightarrow> real list \<Rightarrow> kinematics option" where
  "morph_kinematics la C statevars = do {
     CTSn \<leftarrow> index statevars 0;
     Cn \<leftarrow> from_triu_1d (take 6 (drop 1 statevars));
     SAn \<leftarrow> from_triu_1d (drop 7 statevars);
     let I3 = det C;
     s \<leftarrow> fpow I3 (- 1 / 3);
     let CG = smul s C;
     invC \<leftarrow> inv_t C;
     let dC = tsub C Cn;
     CTG \<leftarrow> tresca la CG;
     let CTS = max CTG CTSn;
     let LG = matmul (sym_t (dev (matmul invC dC))) CG;
     LTG \<leftarrow> tresca la LG;
     Some \<lparr>k_CTSn = CTSn, k_SAn = SAn, k_CG = CG, k_invC = invC, k_CTG = CTG,
           k_CTS = CTS, k_LG = LG, k_LTG = LTG\<rparr>
   }"

text \<open>\<^verbatim>\<open>LG_LTG = if_else(LTG > 0, LG / LTG, LG)\<close>\<close>

definition normalize_increment :: "mat \<Rightarrow> real \<Rightarrow> mat option" where
  "normalize_increment LG LTG = if_else (LTG > 0) (tdiv LG LTG) (Some LG)"

definition morph_stress ::
  "linalg \<Rightarrow> bool \<Rightarrow> mat \<Rightarrow> real list \<Rightarrow> real list \<Rightarrow> kinematics \<Rightarrow> mat
     \<Rightarrow> (mat \<times> real list) option" where
  "morph_stress la stackable C statevars p k LG_LTG = do {
     p0 \<leftarrow> index p 0; p1 \<leftarrow> index p 1; p2 \<leftarrow> index p 2; p3 \<leftarrow> index p 3;
     p4 \<leftarrow> index p 4; p5 \<leftarrow> index p 5; p6 \<leftarrow> index p 6; p7 \<leftarrow> index p 7;
     let CTS = k_CTS k;
     let CTG = k_CTG k;
     let LTG = k_LTG k;
     let invC = k_invC k;
     let \<alpha> = p0 + p1 * sigmoid (p2 * CTS);
     let \<beta> = p3 * sigmoid (p2 * CTS);
     q \<leftarrow> fdiv CTS p5;
     let \<gamma> = p4 * CTS * (1 - sigmoid q);
     E \<leftarrow> tdiv (smul CTG (smul p6 LG_LTG)) CTS;
     let SL = matmul (tadd (smul \<gamma> (expm la E)) (smul p7 LG_LTG)) invC;
     SA \<leftarrow> tdiv (tadd (k_SAn k) (smul (\<beta> * LTG) SL)) (1 + \<beta> * LTG);
     let d\<psi>dC = tmap (\<lambda>x. x / 2)
        (tadd (matmul (smul (2 * \<alpha>) (dev (k_CG k))) invC) (matmul (dev (matmul SA C)) invC));
     let statevars_new = try_stack stackable [[CTS], triu_1d C, triu_1d SA] statevars;
     Some (d\<psi>dC, statevars_new)
   }"

definition morph ::
  "linalg \<Rightarrow> bool \<Rightarrow> mat \<Rightarrow> real list \<Rightarrow> real list
     \<Rightarrow> (mat \<times> real list) option" where
  "morph la stackable C statevars p = do {
     k \<leftarrow> morph_kinematics la C statevars;
     LG_LTG \<leftarrow> normalize_increment (k_LG k) (k_LTG k);
     morph_stress la stackable C statevars p k LG_LTG
   }"

text \<open>
  A sequence of calls, each seeded with the state returned by the preceding call and each
  with its own stacking outcome: the list of the returned states, or \<open>None\<close> as soon as
  one call has no value.
\<close>

fun morph_run ::
  "linalg \<Rightarrow> real list \<Rightarrow> real list \<Rightarrow> (bool \<times> mat) list \<Rightarrow> real list list option" where
  "morph_run la p statevars [] = Some []"
| "morph_run la p statevars ((stackable, C) # calls) = do {
     (S, statevars_new) \<leftarrow> morph la stackable C statevars p;
     rest \<leftarrow> morph_run la p statevars_new calls;
     Some (statevars_new # rest)
   }"

subsection \<open>The representative-directions variant: \<^verbatim>\<open>morph_uniaxial(\<lambda>, statevars, p, \<epsilon>)\<close>\<close>

text \<open>\<^verbatim>\<open>CT = tensor_abs(\<lambda>**2 - 1 / \<lambda>)\<close>, the instantaneous Tresca invariant of one direction.\<close>

definition tresca_uniaxial :: "real \<Rightarrow> real option" where
  "tresca_uniaxial l = do { il \<leftarrow> fdiv 1 l; Some \<bar>l\<^sup>2 - il\<bar> }"

text \<open>
  The source works on arrays of 21 directions, elementwise. \<open>morph_uniaxial_dir\<close> is the
  body of \<^verbatim>\<open>morph_uniaxial\<close> for one direction: from the stretch \<open>l\<close> and the four state
  entries of the direction (\<open>CTSn\<close>, \<open>\<lambda>n - 1\<close>, \<open>SA1n\<close>, \<open>SA2n\<close>) to the force and the four
  new state entries.
\<close>

definition morph_uniaxial_dir ::
  "real list \<Rightarrow> real \<Rightarrow> real \<Rightarrow> real \<times> real \<times> real \<times> real
     \<Rightarrow> (real \<times> real \<times> real \<times> real \<times> real) option" where
  "morph_uniaxial_dir p \<epsilon> l sv = (case sv of (CTSn, ln1, SA1n, SA2n) \<Rightarrow> do {
     let ln = ln1 + 1;
     CT \<leftarrow> tresca_uniaxial l;
     let CTS = max CT CTSn;
     a \<leftarrow> fdiv (l ^ 3) ln;
     let L1 = 2 * (a - ln\<^sup>2) / 3;
     b \<leftarrow> fdiv (ln\<^sup>2) (l ^ 3);
     c \<leftarrow> fdiv 1 ln;
     let L2 = (b - c) / 3;
     let LT = \<bar>L1 - L2\<bar>;
     p0 \<leftarrow> index p 0; p1 \<leftarrow> index p 1; p2 \<leftarrow> index p 2; p3 \<leftarrow> index p 3;
     p4 \<leftarrow> index p 4; p5 \<leftarrow> index p 5; p6 \<leftarrow> index p 6; p7 \<leftarrow> index p 7;
     let \<alpha> = p0 + p1 * sigmoid (p2 * CTS);
     let \<beta> = p3 * sigmoid (p2 * CTS);
     q \<leftarrow> fdiv CTS p5;
     let \<gamma> = p4 * CTS * (1 - sigmoid q);
     L1_LT \<leftarrow> fdiv L1 (\<epsilon> + LT);
     L2_LT \<leftarrow> fdiv L2 (\<epsilon> + LT);
     CT_CTS \<leftarrow> fdiv CT (\<epsilon> + CTS);
     SL1 \<leftarrow> fdiv (\<gamma> * exp (p6 * L1_LT * CT_CTS) + p7 * L1_LT) (l\<^sup>2);
     let SL2 = (\<gamma> * exp (p6 * L2_LT * CT_CTS) + p7 * L2_LT) * l;
     SA1 \<leftarrow> fdiv (SA1n + \<beta> * LT * SL1) (1 + \<beta> * LT);
     SA2 \<leftarrow> fdiv (SA2n + \<beta> * LT * SL2) (1 + \<beta> * LT);
     t \<leftarrow> fdiv (2 * \<alpha> + SA2) (l\<^sup>2);
     let d\<psi>dl = (2 * \<alpha> + SA1) * l - t;
     Some (5 * d\<psi>dl, CTS, l - 1, SA1, SA2)
   })"

text \<open>
  The whole of \<^verbatim>\<open>morph_uniaxial\<close>: 21 stretches and a state of 84 entries, cut into
  \<^verbatim>\<open>statevars[:21]\<close>, \<^verbatim>\<open>statevars[21:42]\<close>, \<^verbatim>\<open>statevars[42:63]\<close> and \<^verbatim>\<open>statevars[63:]\<close>.
  Arrays of another length, which the array library rejects or broadcasts, are not
  followed further: the value is \<open>None\<close>. A non-finite value in one direction makes the
  evaluation \<open>None\<close> as a whole.
\<close>

definition morph_uniaxial ::
  "bool \<Rightarrow> real list \<Rightarrow> real list \<Rightarrow> real list \<Rightarrow> real
     \<Rightarrow> (real list \<times> real list) option" where
  "morph_uniaxial stackable l statevars p \<epsilon> =
     (if length l = 21 \<and> length statevars = 84 then do {
        let CTSn = take 21 statevars;
        let ln1 = take 21 (drop 21 statevars);
        let SA1n = take 21 (drop 42 statevars);
        let SA2n = drop 63 statevars;
        rs \<leftarrow> those (map (\<lambda>(l, sv). morph_uniaxial_dir p \<epsilon> l sv)
                         (zip l (zip CTSn (zip ln1 (zip SA1n SA2n)))));
        let CTS = map (\<lambda>(f, CTS, l1, SA1, SA2). CTS) rs;
        let l1 = map (\<lambda>(f, CTS, l1, SA1, SA2). l1) rs;
        let SA1 = map (\<lambda>(f, CTS, l1, SA1, SA2). SA1) rs;
        let SA2 = map (\<lambda>(f, CTS, l1, SA1, SA2). SA2) rs;
        let statevars_new = try_stack stackable [CTS, l1, SA1, SA2] statevars;
        Some (map (\<lambda>(f, CTS, l1, SA1, SA2). f) rs, statevars_new)
      } else None)"

fun uniaxial_run ::
  "real list \<Rightarrow> real \<Rightarrow> real list \<Rightarrow> (bool \<times> real list) list \<Rightarrow> real list list option" where
  "uniaxial_run p \<epsilon> statevars [] = Some []"
| "uniaxial_run p \<epsilon> statevars ((stackable, l) # calls) = do {
     (f, statevars_new) \<leftarrow> morph_uniaxial stackable l statevars p \<epsilon>;
     rest \<leftarrow> uniaxial_run p \<epsilon> statevars_new calls;
     Some (statevars_new # rest)
   }"

subsection \<open>Concrete inputs\<close>

text \<open>
  On a diagonal tensor the ascending eigenvalues are the sorted diagonal entries and the
  matrix exponential is the exponential of each diagonal entry; \<open>la_diag\<close> is the
  library on diagonal tensors.
\<close>

definition eigvalsh_diag :: "mat \<Rightarrow> real list" where
  "eigvalsh_diag A = (case A of Mat a b c d e g h i j \<Rightarrow> sort [a, e, j])"

definition expm_diag :: "mat \<Rightarrow> mat" where
  "expm_diag A = (case A of Mat a b c d e g h i j \<Rightarrow>
     Mat (exp a) 0 0  0 (exp e) 0  0 0 (exp j))"

definition la_diag :: linalg where
  "la_diag = \<lparr>eigvalsh = eigvalsh_diag, expm = expm_diag\<rparr>"

text \<open>The parameter sets of the two docstrings, and an isochoric stretch along the first axis.\<close>

definition p_morph :: "real list" where
  "p_morph = [39 / 1000, 371 / 1000, 174 / 1000, 241 / 100, 94 / 10000, 684 / 100,
              565 / 100, 244 / 1000]"

definition p_directions :: "real list" where
  "p_directions = [11 / 1000, 408 / 1000, 421 / 1000, 685 / 100, 56 / 10000, 554 / 100,
                   584 / 100, 117 / 1000]"

definition C_stretch :: mat where
  "C_stretch = Mat 4 0 0  0 (1 / 2) 0  0 0 (1 / 2)"

text \<open>A state of the representative-directions variant with the same entries in every direction.\<close>

definition uniform_state :: "real \<Rightarrow> real \<Rightarrow> real \<Rightarrow> real \<Rightarrow> real list" where
  "uniform_state c n s1 s2 = replicate 21 c @ replicate 21 n @ replicate 21 s1 @ replicate 21 s2"

section \<open>The Newton-Raphson corrector and the increment driver\<close>

subsection \<open>Floating-point values and array indexing\<close>

text \<open>
  The solver tests for not-a-number and for zero, so its numbers carry the special values
  of the floating-point format: a real, an infinity of either sign, or not-a-number.
  Rounding and the sign of zero are not modelled.
\<close>

datatype npfloat = Num real | PInf | NInf | NaN

datatype py_error = IndexError | KeyError | ShapesDiffer

definition isnan :: "npfloat \<Rightarrow> bool" where
  "isnan x = (x = NaN)"

text \<open>\<^verbatim>\<open>x / y\<close> on floats; no division raises.\<close>

fun np_div :: "npfloat \<Rightarrow> npfloat \<Rightarrow> npfloat" where
  "np_div NaN y = NaN"
| "np_div x NaN = NaN"
| "np_div (Num a) (Num b) =
     (if b = 0 then (if a = 0 then NaN else if 0 < a then PInf else NInf) else Num (a / b))"
| "np_div (Num a) y = Num 0"
| "np_div PInf (Num b) = (if 0 \<le> b then PInf else NInf)"
| "np_div NInf (Num b) = (if 0 \<le> b then NInf else PInf)"
| "np_div x y = NaN"

text \<open>\<^verbatim>\<open>x < tol\<close> for a finite \<open>tol\<close>: false on not-a-number.\<close>

fun np_less :: "npfloat \<Rightarrow> real \<Rightarrow> bool" where
  "np_less (Num a) t = (a < t)"
| "np_less NInf t = True"
| "np_less PInf t = False"
| "np_less NaN t = False"

text \<open>\<^verbatim>\<open>np.linalg.norm(x)\<close> of a one-dimensional array: the root of the sum of squares.\<close>

definition np_norm :: "npfloat list \<Rightarrow> npfloat" where
  "np_norm xs =
     (if NaN \<in> set xs then NaN
      else if PInf \<in> set xs \<or> NInf \<in> set xs then PInf
      else Num (sqrt (\<Sum>x\<leftarrow>xs. case x of Num a \<Rightarrow> a\<^sup>2 | _ \<Rightarrow> 0)))"

text \<open>
  \<^verbatim>\<open>xs[idx]\<close> for an array of integer indices: a negative index counts from the end, an
  index out of range raises IndexError.
\<close>

definition np_take :: "'a list \<Rightarrow> int list \<Rightarrow> py_error + 'a list" where
  "np_take xs idx =
     (let n = int (length xs)
      in if list_all (\<lambda>i. - n \<le> i \<and> i < n) idx
         then Inr (map (\<lambda>i. xs ! nat (if i < 0 then i + n else i)) idx)
         else Inl IndexError)"

text \<open>
  \<^verbatim>\<open>np.split(xs, unstack)\<close> for a list of split points: the slices
  \<^verbatim>\<open>xs[0:u1], xs[u1:u2], ..., xs[un:]\<close>; there is always a first slice.
\<close>

fun np_split_from :: "nat \<Rightarrow> 'a list \<Rightarrow> nat list \<Rightarrow> 'a list list" where
  "np_split_from st xs [] = [drop st xs]"
| "np_split_from st xs (e # es) = take (e - st) (drop st xs) # np_split_from e xs es"

definition np_split :: "'a list \<Rightarrow> nat list \<Rightarrow> 'a list list" where
  "np_split xs unstack = np_split_from 0 xs unstack"

subsection \<open>Field objects and collaborators\<close>

text \<open>
  Fields are objects that \<^verbatim>\<open>field.add\<close> mutates in place, and the result record of one
  increment holds the list that the next increment works on. The objects therefore live
  in a store, and a list of fields (\<open>flds\<close>) is a list of addresses. \<^verbatim>\<open>copy(fields)\<close> is a
  deep copy: every object of the list is copied to a fresh address, an object that
  occurs twice is copied once.
\<close>

type_synonym addr = nat

record 'fld store =
  obj :: "addr \<Rightarrow> 'fld"
  fresh :: addr

fun copy_from :: "(addr \<times> addr) list \<Rightarrow> 'fld store \<Rightarrow> addr list \<Rightarrow> addr list \<times> 'fld store" where
  "copy_from memo s [] = ([], s)"
| "copy_from memo s (a # as) =
     (case map_of memo a of
        Some a' \<Rightarrow> (let (bs, s') = copy_from memo s as in (a' # bs, s'))
      | None \<Rightarrow>
          (let a' = fresh s;
               s1 = s\<lparr>obj := (obj s)(a' := obj s a), fresh := Suc a'\<rparr>;
               (bs, s') = copy_from ((a, a') # memo) s1 as
           in (a' # bs, s')))"

definition copy_fields :: "'fld store \<Rightarrow> addr list \<Rightarrow> addr list \<times> 'fld store" where
  "copy_fields s flds = copy_from [] s flds"

text \<open>
  The collaborators of the corrector that are imported from other modules. The region
  and its quadrature weights are part of the assembler. \<open>grad_F\<close> is
  \<^verbatim>\<open>identity(grad(u)) + grad(u)\<close>; \<open>assemble_vector\<close> is
  \<^verbatim>\<open>IntegralFormMixed(f, fields, dV).assemble().toarray()[:, 0]\<close>, \<open>assemble_matrix\<close> is
  \<^verbatim>\<open>IntegralFormMixed(A, fields, dV).assemble()\<close>; \<open>partition_solve\<close> is
  \<^verbatim>\<open>solve(*partition(fields, r, K, dof1, dof0), u0ext)\<close>. They are total functions here:
  an exception raised inside a collaborator is not modelled.
\<close>

record ('fld, 't, 'K) collab =
  grad_F :: "'fld \<Rightarrow> 't"
  interpolate :: "'fld \<Rightarrow> 't"
  assemble_vector :: "'t \<Rightarrow> 'fld list \<Rightarrow> npfloat list"
  assemble_matrix :: "'t \<Rightarrow> 'fld list \<Rightarrow> 'K"
  partition_solve ::
    "'fld list \<Rightarrow> npfloat list \<Rightarrow> 'K \<Rightarrow> int list \<Rightarrow> int list \<Rightarrow> npfloat list \<Rightarrow> npfloat list"
  field_add :: "'fld \<Rightarrow> npfloat list \<Rightarrow> 'fld"

text \<open>
  \<^verbatim>\<open>for field, dfield in zip(fields, dfields): field.add(dfield)\<close>: the shorter list ends
  the loop.
\<close>

fun add_fields ::
  "('fld, 't, 'K) collab \<Rightarrow> 'fld store \<Rightarrow> addr list \<Rightarrow> npfloat list list \<Rightarrow> 'fld store" where
  "add_fields c s (a # as) (d # ds) =
     add_fields c (s\<lparr>obj := (obj s)(a := field_add c (obj s a) d)\<rparr>) as ds"
| "add_fields c s as ds = s"

subsection \<open>\<^verbatim>\<open>newtonrhapson\<close>\<close>

text \<open>
  The local variables of the corrector; \<open>l_iterations\<close> counts the loop bodies entered
  (it is \<^verbatim>\<open>iteration + 1\<close> of the source when the loop is left).
\<close>

record ('fld, 't, 'K) locals =
  l_store :: "'fld store"
  l_r :: "npfloat list"
  l_K :: 'K
  l_F :: 't
  l_f :: 't
  l_A :: 't
  l_converged :: bool
  l_iterations :: nat

record ('t, 'K) result =
  res_fields :: "addr list"
  res_r :: "npfloat list"
  res_K :: 'K
  res_F :: 't
  res_f :: 't
  res_A :: 't
  res_unstack :: "nat list"
  res_converged :: bool

text \<open>Lines 103-105: \<^verbatim>\<open>rref = np.linalg.norm(r[dof0]); if rref == 0: rref = 1\<close>.\<close>

definition reference_norm :: "npfloat list \<Rightarrow> int list \<Rightarrow> py_error + npfloat" where
  "reference_norm r dof0 =
     (case np_take r dof0 of
        Inl e \<Rightarrow> Inl e
      | Inr r0 \<Rightarrow> (let rref = np_norm r0 in Inr (if rref = Num 0 then Num 1 else rref)))"

text \<open>Line 106: \<^verbatim>\<open>norm_r = np.linalg.norm(r[dof1]) / rref\<close>.\<close>

definition convergence_ratio :: "npfloat list \<Rightarrow> int list \<Rightarrow> int list \<Rightarrow> py_error + npfloat" where
  "convergence_ratio r dof1 dof0 =
     (case reference_norm r dof0 of
        Inl e \<Rightarrow> Inl e
      | Inr rref \<Rightarrow>
          (case np_take r dof1 of
             Inl e \<Rightarrow> Inl e
           | Inr r1 \<Rightarrow> Inr (np_div (np_norm r1) rref)))"

text \<open>Lines 66-81: the evaluation before the loop.\<close>

definition newton_start ::
  "('fld, 't, 'K) collab \<Rightarrow> 'fld store \<Rightarrow> addr list \<Rightarrow> ('t \<Rightarrow> 't list \<Rightarrow> 't)
     \<Rightarrow> ('t \<Rightarrow> 't list \<Rightarrow> 't) \<Rightarrow> py_error + ('fld, 't, 'K) locals" where
  "newton_start c s flds fun_f fun_A =
     (case index flds 0 of
        None \<Rightarrow> Inl IndexError
      | Some u \<Rightarrow>
          (let F = grad_F c (obj s u);
               f = fun_f F (map (\<lambda>a. interpolate c (obj s a)) (drop 1 flds));
               A = fun_A F (map (\<lambda>a. interpolate c (obj s a)) (drop 1 flds));
               r = assemble_vector c f (map (obj s) flds);
               K = assemble_matrix c A (map (obj s) flds)
           in Inr \<lparr>l_store = s, l_r = r, l_K = K, l_F = F, l_f = f, l_A = A,
                   l_converged = False, l_iterations = 0\<rparr>))"

text \<open>
  Lines 85-122: the body of the loop, from the locals at its entry to the locals at its
  end, together with the way the body is left: by a \<^verbatim>\<open>break\<close>, or to the next
  iteration. The printing and the norms computed for it have no effect.
\<close>

datatype 'a flow = Break 'a | Continue 'a

definition newton_body ::
  "('fld, 't, 'K) collab \<Rightarrow> addr list \<Rightarrow> npfloat list \<Rightarrow> ('t \<Rightarrow> 't list \<Rightarrow> 't)
     \<Rightarrow> ('t \<Rightarrow> 't list \<Rightarrow> 't) \<Rightarrow> int list \<Rightarrow> int list \<Rightarrow> nat list \<Rightarrow> real
     \<Rightarrow> ('fld, 't, 'K) locals \<Rightarrow> py_error + ('fld, 't, 'K) locals flow" where
  "newton_body c flds u0ext fun_f fun_A dof1 dof0 unstack tol l =
     (let l = l\<lparr>l_iterations := Suc (l_iterations l)\<rparr>;
          s = l_store l;
          dfields = np_split
            (partition_solve c (map (obj s) flds) (l_r l) (l_K l) dof1 dof0 u0ext) unstack
      in if list_ex isnan (hd dfields) then Inr (Break l)
         else
           (let s = add_fields c s flds dfields
            in case index flds 0 of
                 None \<Rightarrow> Inl IndexError
               | Some u \<Rightarrow>
                   (let F = grad_F c (obj s u);
                        f = fun_f F (map (\<lambda>a. interpolate c (obj s a)) (drop 1 flds));
                        r = assemble_vector c f (map (obj s) flds);
                        l = l\<lparr>l_store := s, l_r := r, l_F := F, l_f := f\<rparr>
                    in case convergence_ratio r dof1 dof0 of
                         Inl e \<Rightarrow> Inl e
                       | Inr norm_r \<Rightarrow>
                           if np_less norm_r tol then Inr (Break (l\<lparr>l_converged := True\<rparr>))
                           else
                             (let A = fun_A F (map (\<lambda>a. interpolate c (obj s a)) (drop 1 flds));
                                  K = assemble_matrix c A (map (obj s) flds)
                              in Inr (Continue (l\<lparr>l_K := K, l_A := A\<rparr>))))))"

text \<open>
  Line 83: \<^verbatim>\<open>for iteration in range(maxiter)\<close>, as a recursion on the number of
  iterations that remain.
\<close>

fun newton_iterations ::
  "('fld, 't, 'K) collab \<Rightarrow> addr list \<Rightarrow> npfloat list \<Rightarrow> ('t \<Rightarrow> 't list \<Rightarrow> 't)
     \<Rightarrow> ('t \<Rightarrow> 't list \<Rightarrow> 't) \<Rightarrow> int list \<Rightarrow> int list \<Rightarrow> nat list \<Rightarrow> real \<Rightarrow> nat
     \<Rightarrow> ('fld, 't, 'K) locals \<Rightarrow> py_error + ('fld, 't, 'K) locals" where
  "newton_iterations c flds u0ext fun_f fun_A dof1 dof0 unstack tol 0 l = Inr l"
| "newton_iterations c flds u0ext fun_f fun_A dof1 dof0 unstack tol (Suc n) l =
     (case newton_body c flds u0ext fun_f fun_A dof1 dof0 unstack tol l of
        Inl e \<Rightarrow> Inl e
      | Inr (Break l') \<Rightarrow> Inr l'
      | Inr (Continue l') \<Rightarrow>
          newton_iterations c flds u0ext fun_f fun_A dof1 dof0 unstack tol n l')"

text \<open>
  The locals with which the loop body is entered in a run of the loop that starts with
  the locals \<open>l0\<close>: \<open>l0\<close> itself, and the locals with which a body that was entered
  goes to the next iteration.
\<close>

inductive entered ::
  "('fld, 't, 'K) collab \<Rightarrow> addr list \<Rightarrow> npfloat list \<Rightarrow> ('t \<Rightarrow> 't list \<Rightarrow> 't)
     \<Rightarrow> ('t \<Rightarrow> 't list \<Rightarrow> 't) \<Rightarrow> int list \<Rightarrow> int list \<Rightarrow> nat list \<Rightarrow> real
     \<Rightarrow> ('fld, 't, 'K) locals \<Rightarrow> ('fld, 't, 'K) locals \<Rightarrow> bool"
  for c flds u0ext fun_f fun_A dof1 dof0 unstack tol l0 where
  entered_first: "entered c flds u0ext fun_f fun_A dof1 dof0 unstack tol l0 l0"
| entered_next: "entered c flds u0ext fun_f fun_A dof1 dof0 unstack tol l0 l \<Longrightarrow>
     newton_body c flds u0ext fun_f fun_A dof1 dof0 unstack tol l = Inr (Continue l') \<Longrightarrow>
     entered c flds u0ext fun_f fun_A dof1 dof0 unstack tol l0 l'"

text \<open>The whole corrector: the result record with a deep copy of the fields, and the store.\<close>

definition newtonrhapson ::
  "('fld, 't, 'K) collab \<Rightarrow> 'fld store \<Rightarrow> addr list \<Rightarrow> npfloat list \<Rightarrow> ('t \<Rightarrow> 't list \<Rightarrow> 't)
     \<Rightarrow> ('t \<Rightarrow> 't list \<Rightarrow> 't) \<Rightarrow> int list \<Rightarrow> int list \<Rightarrow> nat list \<Rightarrow> int \<Rightarrow> real
     \<Rightarrow> py_error + ('t, 'K) result \<times> 'fld store" where
  "newtonrhapson c s flds u0ext fun_f fun_A dof1 dof0 unstack maxiter tol =
     (case newton_start c s flds fun_f fun_A of
        Inl e \<Rightarrow> Inl e
      | Inr l0 \<Rightarrow>
          (case newton_iterations c flds u0ext fun_f fun_A dof1 dof0 unstack tol
                  (nat maxiter) l0 of
             Inl e \<Rightarrow> Inl e
           | Inr l \<Rightarrow>
               (let (flds', s') = copy_fields (l_store l) flds
                in Inr (\<lparr>res_fields = flds', res_r = l_r l, res_K = l_K l, res_F = l_F l,
                         res_f = l_f l, res_A = l_A l, res_unstack = unstack,
                         res_converged = l_converged l\<rparr>, s'))))"

subsection \<open>\<^verbatim>\<open>incsolve\<close>\<close>






subsection \<open>\<^verbatim>\<open>dofresiduals\<close>\<close>

text \<open>
  The arrays \<^verbatim>\<open>r\<close> and \<^verbatim>\<open>rref\<close> are passed by reference and \<^verbatim>\<open>ry = rref\<close> is a second
  name for the same array, so the arrays of the caller live in a heap and the function
  returns the heap it leaves behind together with its value. An array has one row per
  node; \<^verbatim>\<open>region.mesh.elements_per_node\<close> is the argument \<open>elements_per_node\<close>. The quotient
  \<^verbatim>\<open>rxy\<close> is a new array, and the masked assignment writes into it only. Operands of
  different shapes, which the array library either broadcasts or rejects, are not
  followed further: the value is \<open>ShapesDiffer\<close>.
\<close>

datatype residuals = Full "npfloat list list" | Picked "npfloat list"

definition dofresiduals ::
  "int list \<Rightarrow> (addr \<Rightarrow> npfloat list list) \<Rightarrow> addr \<Rightarrow> addr \<Rightarrow> int list option
     \<Rightarrow> (py_error + residuals) \<times> (addr \<Rightarrow> npfloat list list)" where
  "dofresiduals elements_per_node h r rref dof1 =
     (let rx = r;
          ry = rref;
          h = h(ry := map (map (\<lambda>x. if x = Num 0 then NaN else x)) (h ry));
          out =
            (if map length (h rx) = map length (h ry) then
               (let rxy = map2 (map2 np_div) (h rx) (h ry)
                in if length elements_per_node = length rxy then
                     (let rxy = map2 (\<lambda>e (row_xy, row_x). if e = 1 then row_x else row_xy)
                                  elements_per_node (zip rxy (h rx))
                      in case dof1 of
                           None \<Rightarrow> Inr (Full rxy)
                         | Some dof1 \<Rightarrow>
                             (case np_take (concat rxy) dof1 of
                                Inl e \<Rightarrow> Inl e
                              | Inr picked \<Rightarrow> Inr (Picked picked)))
                   else Inl IndexError)
             else Inl ShapesDiffer)
      in (out, h))"

subsection \<open>A small instance of the collaborators\<close>

text \<open>
  For concrete runs: a field is an array of floats and \<^verbatim>\<open>field.add\<close> adds elementwise,
  the residual is the stacked field values, the linear solve returns the externally
  supplied vector as the correction, and that vector repeats the value of the boundary
  \<open>''move''\<close>. Boundary objects are their values.
\<close>

fun np_add :: "npfloat \<Rightarrow> npfloat \<Rightarrow> npfloat" where
  "np_add NaN y = NaN"
| "np_add x NaN = NaN"
| "np_add (Num a) (Num b) = Num (a + b)"
| "np_add PInf NInf = NaN"
| "np_add NInf PInf = NaN"
| "np_add (Num a) y = y"
| "np_add x y = x"

definition plain_collab :: "(npfloat list, unit, unit) collab" where
  "plain_collab =
     \<lparr>grad_F = (\<lambda>u. ()), interpolate = (\<lambda>u. ()),
      assemble_vector = (\<lambda>f values. concat values),
      assemble_matrix = (\<lambda>A values. ()),
      partition_solve = (\<lambda>values r K dof1 dof0 u0ext. u0ext),
      field_add = (\<lambda>values dfield. map2 np_add values dfield)\<rparr>"


definition plain_fun :: "unit \<Rightarrow> unit list \<Rightarrow> unit" where
  "plain_fun F its = ()"

definition ones_store :: "npfloat list store" where
  "ones_store = \<lparr>obj = (\<lambda>a. [Num 1]), fresh = 2\<rparr>"

definition zero_store :: "npfloat list store" where
  "zero_store = \<lparr>obj = (\<lambda>a. [Num 0]), fresh = 1\<rparr>"

text \<open>A heap with the residual (1, 4) at address 0 and the reference (0, 2) at address 1.\<close>

definition two_arrays :: "addr \<Rightarrow> npfloat list list" where
  "two_arrays a = (if a = 0 then [[Num 1, Num 4]] else [[Num 0, Num 2]])"

text \<open>The locals before the loop for the two fields of \<open>ones_store\<close>.\<close>

definition l_ones :: "(npfloat list, unit, unit) locals" where
  "l_ones = \<lparr>l_store = ones_store, l_r = [Num 1, Num 1], l_K = (), l_F = (), l_f = (),
             l_A = (), l_converged = False, l_iterations = 0\<rparr>"

section \<open>Properties of the sigmoid\<close>

lemma sigmoid_pos: "0 < sigmoid x"
proof -
  have "0 < 1 + x\<^sup>2" by (rule add_pos_nonneg) simp_all
  then show ?thesis by (simp add: sigmoid_def)
qed





section \<open>The tensor variant\<close>

lemma morph_kinematics_history:
  "morph_kinematics la C statevars = Some k \<Longrightarrow>
     k_CTSn k = hd statevars \<and> k_CTS k = max (k_CTG k) (hd statevars) \<and> statevars \<noteq> []"
  by (auto simp: morph_kinematics_def bind_eq_Some_conv index_def Let_def hd_conv_nth split: if_splits)

lemma morph_stress_state:
  "morph_stress la stackable C statevars p k N = Some (S, st') \<Longrightarrow>
     \<exists>SA. st' = try_stack stackable [[k_CTS k], triu_1d C, triu_1d SA] statevars"
  by (auto simp: morph_stress_def bind_eq_Some_conv Let_def)

lemma morph_state:
  assumes "morph la stackable C statevars p = Some (S, st')"
  shows "\<exists>k SA. morph_kinematics la C statevars = Some k \<and>
            st' = try_stack stackable [[k_CTS k], triu_1d C, triu_1d SA] statevars"
proof -
  from assms obtain k N where k: "morph_kinematics la C statevars = Some k"
    and s: "morph_stress la stackable C statevars p k N = Some (S, st')"
    by (auto simp: morph_def bind_eq_Some_conv simp del: split_paired_Ex)
  from morph_stress_state [OF s] k show ?thesis by blast
qed

lemma morph_history_le:
  assumes "morph la stackable C statevars p = Some (S, st')"
  shows "hd statevars \<le> hd st'"
proof -
  from morph_state [OF assms] obtain k SA where
    k: "morph_kinematics la C statevars = Some k" and
    st: "st' = try_stack stackable [[k_CTS k], triu_1d C, triu_1d SA] statevars" by blast
  from morph_kinematics_history [OF k] have "hd statevars \<le> k_CTS k" by simp
  with st show ?thesis by (simp add: try_stack_def)
qed

lemma morph_run_sorted:
  "morph_run la p st0 calls = Some sts \<Longrightarrow> sorted (map hd (st0 # sts))"
proof (induction calls arbitrary: st0 sts)
  case Nil
  then show ?case by simp
next
  case (Cons call calls)
  obtain b C where call: "call = (b, C)" by (cases call)
  from Cons.prems call obtain S st1 rest where
    m: "morph la b C st0 p = Some (S, st1)" and
    r: "morph_run la p st1 calls = Some rest" and
    sts: "sts = st1 # rest"
    by (auto simp: bind_eq_Some_conv)
  from Cons.IH [OF r] have "sorted (map hd (st1 # rest))" .
  moreover from morph_history_le [OF m] have "hd st0 \<le> hd st1" .
  ultimately show ?case using sts by fastforce
qed

lemma kin_stretch:
  "morph_kinematics la_diag C_stretch (replicate 13 0) =
     Some \<lparr>k_CTSn = 0, k_SAn = Mat 0 0 0  0 0 0  0 0 0,
           k_CG = C_stretch, k_invC = Mat (1 / 4) 0 0  0 2 0  0 0 2, k_CTG = 7 / 2,
           k_CTS = 7 / 2, k_LG = Mat 0 0 0  0 0 0  0 0 0, k_LTG = 0\<rparr>"
  by (simp add: morph_kinematics_def index_def fpow_def inv_t_def tdiv_def smul_def tsub_def
      tresca_def la_diag_def eigvalsh_diag_def sym_t_def dev_def tadd_def eye_def Let_def
      numeral_eq_Suc C_stretch_def sort_key_def)

lemma kin_stretch_again:
  "morph_kinematics la_diag C_stretch [7 / 2, 4, 0, 0, 1 / 2, 0, 1 / 2, 0, 0, 0, 0, 0, 0] =
     Some \<lparr>k_CTSn = 7 / 2, k_SAn = Mat 0 0 0  0 0 0  0 0 0,
           k_CG = C_stretch, k_invC = Mat (1 / 4) 0 0  0 2 0  0 0 2, k_CTG = 7 / 2,
           k_CTS = 7 / 2, k_LG = Mat 0 0 0  0 0 0  0 0 0, k_LTG = 0\<rparr>"
  by (simp add: morph_kinematics_def index_def fpow_def inv_t_def tdiv_def smul_def tsub_def
      tresca_def la_diag_def eigvalsh_diag_def sym_t_def dev_def tadd_def eye_def Let_def
      C_stretch_def sort_key_def)

lemma morph_stretch:
  "map_option snd (morph la_diag stackable C_stretch (replicate 13 0) p_morph) =
     Some (try_stack stackable [[7 / 2], triu_1d C_stretch, [0,0,0,0,0,0]] (replicate 13 0))"
  unfolding morph_def kin_stretch
  by (simp add: normalize_increment_def if_else_def
       morph_stress_def p_morph_def index_def fdiv_def tdiv_def Let_def smul_def tadd_def
       la_diag_def expm_diag_def
       del: map_option_eq_Some)

lemma morph_stretch_again:
  "map_option snd (morph la_diag stackable C_stretch
       [7 / 2, 4, 0, 0, 1 / 2, 0, 1 / 2, 0, 0, 0, 0, 0, 0] p_morph) =
     Some [7 / 2, 4, 0, 0, 1 / 2, 0, 1 / 2, 0, 0, 0, 0, 0, 0]"
  unfolding morph_def kin_stretch_again
  by (simp add: normalize_increment_def if_else_def
       morph_stress_def p_morph_def index_def fdiv_def tdiv_def Let_def smul_def tadd_def
       la_diag_def expm_diag_def try_stack_def C_stretch_def
       del: map_option_eq_Some)

text \<open>
  C4: the normalisation never yields a non-finite tensor, and when the Tresca-type
  invariant \<open>LTG\<close> of the incremental tensor \<open>LG\<close> is exactly zero, \<open>LG\<close> is used
  unnormalised: the evaluator's output is the one computed from \<open>LG\<close> itself.
\<close>

theorem C4_degeneracy_guard:
  "normalize_increment LG LTG \<noteq> None
   \<and> (morph_kinematics la C statevars = Some k \<and> k_LTG k = 0 \<longrightarrow>
        normalize_increment (k_LG k) (k_LTG k) = Some (k_LG k)
        \<and> morph la stackable C statevars p = morph_stress la stackable C statevars p k (k_LG k))"
  by (auto simp: normalize_increment_def if_else_def tdiv_def morph_def)

text \<open>
  Witness for C4: for \<open>C_stretch\<close> from the zero state the incremental tensor vanishes, its
  invariant is zero, and the evaluator returns a value.
\<close>

theorem C4_degeneracy_guard_witness:
  "(\<exists>k. morph_kinematics la_diag C_stretch (replicate 13 0) = Some k \<and> k_LTG k = 0
      \<and> normalize_increment (k_LG k) (k_LTG k) = Some (k_LG k)
      \<and> morph la_diag True C_stretch (replicate 13 0) p_morph
          = morph_stress la_diag True C_stretch (replicate 13 0) p_morph k (k_LG k))
   \<and> morph la_diag True C_stretch (replicate 13 0) p_morph \<noteq> None"
proof -
  from kin_stretch obtain k where
    k: "morph_kinematics la_diag C_stretch (replicate 13 0) = Some k" and z: "k_LTG k = 0"
    by simp
  from C4_degeneracy_guard [of "k_LG k" "k_LTG k" la_diag C_stretch "replicate 13 0" k True p_morph] k z
  have "normalize_increment (k_LG k) (k_LTG k) = Some (k_LG k)
        \<and> morph la_diag True C_stretch (replicate 13 0) p_morph
          = morph_stress la_diag True C_stretch (replicate 13 0) p_morph k (k_LG k)"
    by blast
  moreover from morph_stretch [of True]
  have "morph la_diag True C_stretch (replicate 13 0) p_morph \<noteq> None"
    by auto
  ultimately show ?thesis using k z by blast
qed

section \<open>The representative-directions variant, the history invariant and the fallback\<close>

lemma those_replicate_Some: "those (replicate n (Some x)) = Some (replicate n x)"
  by (induction n) simp_all

lemma those_replicate_None: "0 < n \<Longrightarrow> those (replicate n None) = None"
  by (cases n) simp_all

lemma morph_uniaxial_uniform:
  "morph_uniaxial b (replicate 21 l) (uniform_state c n s1 s2) p \<epsilon> =
     (case morph_uniaxial_dir p \<epsilon> l (c, n, s1, s2) of None \<Rightarrow> None
      | Some (f, c', n', s1', s2') \<Rightarrow>
          Some (replicate 21 f, try_stack b [replicate 21 c', replicate 21 n',
                  replicate 21 s1', replicate 21 s2'] (uniform_state c n s1 s2)))"
proof (cases "morph_uniaxial_dir p \<epsilon> l (c, n, s1, s2)")
  case None
  then show ?thesis
    by (simp add: morph_uniaxial_def uniform_state_def those_replicate_None)
next
  case (Some r)
  obtain f c' n' s1' s2' where r: "r = (f, c', n', s1', s2')" by (cases r)
  with Some show ?thesis
    by (simp add: morph_uniaxial_def uniform_state_def those_replicate_Some)
qed

lemma morph_uniaxial_dir_Some:
  assumes p: "8 \<le> length p" and p3: "0 \<le> p ! 3" and p5: "p ! 5 \<noteq> 0"
    and e: "0 < \<epsilon>" and l: "l \<noteq> 0" and n: "n + 1 \<noteq> 0"
  shows "\<exists>f s1' s2'. morph_uniaxial_dir p \<epsilon> l (c, n, s1, s2) =
           Some (f, max \<bar>l\<^sup>2 - 1 / l\<bar> c, l - 1, s1', s2')"
proof -
  have a: "\<And>x. \<epsilon> + \<bar>x\<bar> \<noteq> 0"
  proof -
    fix x :: real
    have "0 < \<epsilon> + \<bar>x\<bar>" using e by (simp add: add_pos_nonneg)
    then show "\<epsilon> + \<bar>x\<bar> \<noteq> 0" by simp
  qed
  have b: "\<And>x. \<epsilon> + max \<bar>x\<bar> c \<noteq> 0"
  proof -
    fix x :: real
    have "0 \<le> max \<bar>x\<bar> c" by (simp add: le_max_iff_disj)
    then have "0 < \<epsilon> + max \<bar>x\<bar> c" using e by (simp add: add_pos_nonneg)
    then show "\<epsilon> + max \<bar>x\<bar> c \<noteq> 0" by simp
  qed
  have d: "\<And>x y. 1 + p ! 3 * sigmoid y * \<bar>x\<bar> \<noteq> 0"
  proof -
    fix x y :: real
    have "0 \<le> p ! 3 * sigmoid y" using p3 sigmoid_pos [of y] by simp
    then have "0 \<le> p ! 3 * sigmoid y * \<bar>x\<bar>" by simp
    then have "0 < 1 + p ! 3 * sigmoid y * \<bar>x\<bar>" by linarith
    then show "1 + p ! 3 * sigmoid y * \<bar>x\<bar> \<noteq> 0" by simp
  qed
  from p have ne: "p \<noteq> []" by auto
  show ?thesis
    unfolding morph_uniaxial_dir_def tresca_uniaxial_def
    using p ne p5 l n a b d
    by (simp add: fdiv_def index_def Let_def)
qed



lemma p_directions_ok:
  "8 \<le> length p_directions" "0 \<le> p_directions ! 3" "p_directions ! 5 \<noteq> 0"
  by (simp_all add: p_directions_def)

lemma uniform_step:
  assumes l: "l \<noteq> 0" and n: "n + 1 \<noteq> 0"
  shows "\<exists>f s1' s2'. morph_uniaxial b (replicate 21 l) (uniform_state c n s1 s2) p_directions (1 / 10 ^ 8)
     = Some (f, if b then uniform_state (max \<bar>l\<^sup>2 - 1 / l\<bar> c) (l - 1) s1' s2'
                else uniform_state c n s1 s2)"
proof -
  have e: "(0::real) < 1 / 10 ^ 8" by simp
  from morph_uniaxial_dir_Some [OF p_directions_ok e l n, of c s1 s2]
  obtain f s1' s2' where d:
    "morph_uniaxial_dir p_directions (1 / 10 ^ 8) l (c, n, s1, s2) =
           Some (f, max \<bar>l\<^sup>2 - 1 / l\<bar> c, l - 1, s1', s2')" by blast
  have "morph_uniaxial b (replicate 21 l) (uniform_state c n s1 s2) p_directions (1 / 10 ^ 8)
     = Some (replicate 21 f, if b then uniform_state (max \<bar>l\<^sup>2 - 1 / l\<bar> c) (l - 1) s1' s2'
                else uniform_state c n s1 s2)"
    unfolding morph_uniaxial_uniform d
    by (simp add: try_stack_def uniform_state_def)
  then show ?thesis by blast
qed

lemma take_uniform_state: "take 21 (uniform_state c n s1 s2) = replicate 21 c"
  by (simp add: uniform_state_def)

lemma zero_state_uniform: "replicate 84 0 = uniform_state 0 0 0 0"
  by (simp add: uniform_state_def replicate_add [symmetric])

lemma dir_history:
  "morph_uniaxial_dir p \<epsilon> l (c, n, s1, s2) = Some (f, c', n', s1', s2') \<Longrightarrow>
     \<exists>CT. tresca_uniaxial l = Some CT \<and> c' = max CT c"
  by (auto simp: morph_uniaxial_dir_def bind_eq_Some_conv Let_def)

lemma those_map_Some:
  "those (map g xs) = Some rs \<Longrightarrow>
     length rs = length xs \<and> (\<forall>i<length xs. g (xs ! i) = Some (rs ! i))"
proof (induction xs arbitrary: rs)
  case Nil
  then show ?case by simp
next
  case (Cons x xs)
  from Cons.prems obtain r rs' where g: "g x = Some r" and t: "those (map g xs) = Some rs'"
    and rs: "rs = r # rs'"
    by (auto split: option.splits)
  from Cons.IH [OF t] have "length rs' = length xs"
    and "\<forall>i<length xs. g (xs ! i) = Some (rs' ! i)" by simp_all
  with g rs show ?case by (auto simp: nth_Cons split: nat.splits)
qed

lemma directions_nth:
  assumes "length l = 21" "length statevars = 84" "i < 21"
  shows "zip l (zip (take 21 statevars) (zip (take 21 (drop 21 statevars))
              (zip (take 21 (drop 42 statevars)) (drop 63 statevars)))) ! i
     = (l ! i, statevars ! i, drop 21 statevars ! i, drop 42 statevars ! i, drop 63 statevars ! i)"
  using assms by (simp add: nth_zip del: nth_drop)

lemma directions_length:
  assumes "length l = 21" "length (statevars :: real list) = 84"
  shows "length (zip l (zip (take 21 statevars) (zip (take 21 (drop 21 statevars))
              (zip (take 21 (drop 42 statevars)) (drop 63 statevars))))) = 21"
  using assms by simp

lemma morph_uniaxial_history:
  assumes "morph_uniaxial b l statevars p \<epsilon> = Some (f, st')"
  shows "(if b then \<forall>i<21. \<exists>CT. tresca_uniaxial (l ! i) = Some CT
                       \<and> st' ! i = max CT (statevars ! i)
          else st' = statevars)
       \<and> length st' = 84 \<and> length statevars = 84"
proof -
  let ?z = "zip l (zip (take 21 statevars) (zip (take 21 (drop 21 statevars))
              (zip (take 21 (drop 42 statevars)) (drop 63 statevars))))"
  from assms have len: "length l = 21" "length statevars = 84"
    by (auto simp: morph_uniaxial_def split: if_splits)
  from assms len obtain rs where
    th: "those (map (\<lambda>(l, sv). morph_uniaxial_dir p \<epsilon> l sv) ?z) = Some rs" and
    st: "st' = try_stack b [map (\<lambda>(f, CTS, l1, SA1, SA2). CTS) rs,
                            map (\<lambda>(f, CTS, l1, SA1, SA2). l1) rs,
                            map (\<lambda>(f, CTS, l1, SA1, SA2). SA1) rs,
                            map (\<lambda>(f, CTS, l1, SA1, SA2). SA2) rs] statevars"
    by (auto simp: morph_uniaxial_def bind_eq_Some_conv Let_def)
  have lz: "length ?z = 21" using len by (rule directions_length)
  from those_map_Some [OF th] have "length rs = length ?z"
    and "\<forall>i<length ?z. (\<lambda>(l, sv). morph_uniaxial_dir p \<epsilon> l sv) (?z ! i) = Some (rs ! i)"
    by blast+
  then have lrs: "length rs = 21"
    and each: "\<And>i. i < 21 \<Longrightarrow> (\<lambda>(l, sv). morph_uniaxial_dir p \<epsilon> l sv) (?z ! i) = Some (rs ! i)"
    unfolding lz by blast+
  have hist: "\<exists>CT. tresca_uniaxial (l ! i) = Some CT
      \<and> (\<lambda>(f, CTS, l1, SA1, SA2). CTS) (rs ! i) = max CT (statevars ! i)" if i: "i < 21" for i
  proof -
    obtain f' c' n' s1' s2' where r: "rs ! i = (f', c', n', s1', s2')" by (cases "rs ! i")
    have zi: "?z ! i = (l ! i, statevars ! i, drop 21 statevars ! i,
        drop 42 statevars ! i, drop 63 statevars ! i)"
      using len i by (rule directions_nth)
    from each [OF i] have "morph_uniaxial_dir p \<epsilon> (l ! i) (statevars ! i, drop 21 statevars ! i,
        drop 42 statevars ! i, drop 63 statevars ! i) = Some (f', c', n', s1', s2')"
      unfolding zi r by (simp only: prod.case)
    from dir_history [OF this] r show ?thesis by simp
  qed
  show ?thesis
  proof (cases b)
    case True
    with st lrs have "st' ! i = (\<lambda>(f, CTS, l1, SA1, SA2). CTS) (rs ! i)" if "i < 21" for i
      using that by (simp add: try_stack_def nth_append)
    with hist True st lrs len show ?thesis by (simp add: try_stack_def)
  next
    case False
    with st len show ?thesis by (simp add: try_stack_def)
  qed
qed

lemma morph_uniaxial_history_le:
  assumes "morph_uniaxial b l statevars p \<epsilon> = Some (f, st')" and "i < 21"
  shows "statevars ! i \<le> st' ! i"
proof (cases b)
  case True
  with morph_uniaxial_history [OF assms(1)] assms(2)
  obtain CT where "st' ! i = max CT (statevars ! i)" by auto
  then show ?thesis by simp
next
  case False
  with morph_uniaxial_history [OF assms(1)] show ?thesis by simp
qed

lemma uniaxial_run_sorted:
  "uniaxial_run p \<epsilon> st0 calls = Some sts \<Longrightarrow> i < 21 \<Longrightarrow>
     sorted (map (\<lambda>st. st ! i) (st0 # sts))"
proof (induction calls arbitrary: st0 sts)
  case Nil
  then show ?case by simp
next
  case (Cons call calls)
  obtain b l where call: "call = (b, l)" by (cases call)
  from Cons.prems(1) call obtain f st1 rest where
    m: "morph_uniaxial b l st0 p \<epsilon> = Some (f, st1)" and
    r: "uniaxial_run p \<epsilon> st1 calls = Some rest" and
    sts: "sts = st1 # rest"
    by (auto simp: bind_eq_Some_conv)
  from Cons.IH [OF r Cons.prems(2)] have "sorted (map (\<lambda>st. st ! i) (st1 # rest))" .
  moreover from morph_uniaxial_history_le [OF m Cons.prems(2)] have "st0 ! i \<le> st1 ! i" .
  ultimately show ?case using sts by fastforce
qed

text \<open>
  C1 (as stated): for every call the history invariant of the returned state is the
  maximum of the current Tresca invariant and the previous history invariant. This
  fails when the stacking falls back: for the stretch \<open>C_stretch\<close> from the zero state the
  Tresca invariant is 7/2, and the returned state is the previous one, with history
  invariant 0.
\<close>

theorem C1_fallback_keeps_previous_history:
  "map_option (hd \<circ> snd) (morph la_diag False C_stretch (replicate 13 0) p_morph) = Some 0
   \<and> map_option k_CTG (morph_kinematics la_diag C_stretch (replicate 13 0)) = Some (7 / 2)
   \<and> hd (replicate 13 (0::real)) = 0 \<and> max (7 / 2) 0 \<noteq> (0::real)"
proof -
  have "map_option (hd \<circ> snd) (morph la_diag False C_stretch (replicate 13 0) p_morph)
      = map_option hd (map_option snd (morph la_diag False C_stretch (replicate 13 0) p_morph))"
    by (simp add: option.map_comp)
  also have "\<dots> = Some 0"
    unfolding morph_stretch by (simp add: try_stack_def numeral_eq_Suc)
  finally have a: "map_option (hd \<circ> snd)
      (morph la_diag False C_stretch (replicate 13 0) p_morph) = Some 0" .
  have b: "map_option k_CTG (morph_kinematics la_diag C_stretch (replicate 13 0)) = Some (7 / 2)"
    unfolding kin_stretch by simp
  have c: "hd (replicate 13 (0::real)) = 0" by simp
  from a b c show ?thesis by simp
qed

text \<open>
  C1 (amended): for every call of \<open>morph\<close> that returns, the history invariant computed
  is the maximum of the current Tresca invariant and the previous history invariant; the
  returned state carries it in front when the stacking succeeds and is the previous
  state when the stacking falls back. In both cases the returned history invariant is
  not below the previous one, hence it is non-decreasing along every sequence of calls
  in which each call is seeded with the state returned by the preceding call. The same
  holds in each of the 21 directions of \<open>morph_uniaxial\<close>.
\<close>

theorem C1_history_ratchet:
  "(morph la stackable C statevars p = Some (S, st') \<longrightarrow>
      (\<exists>k SA. morph_kinematics la C statevars = Some k
         \<and> k_CTS k = max (k_CTG k) (hd statevars)
         \<and> st' = (if stackable then k_CTS k # triu_1d C @ triu_1d SA else statevars))
      \<and> hd statevars \<le> hd st')
   \<and> (morph_run la p st0 calls = Some sts \<longrightarrow> sorted (map hd (st0 # sts)))
   \<and> (morph_uniaxial b l sv p' \<epsilon> = Some (f, st'') \<and> i < 21 \<longrightarrow>
        (if b then \<exists>CT. tresca_uniaxial (l ! i) = Some CT \<and> st'' ! i = max CT (sv ! i)
         else st'' = sv)
        \<and> sv ! i \<le> st'' ! i)
   \<and> (uniaxial_run p' \<epsilon> sv0 ucalls = Some usts \<and> i < 21 \<longrightarrow>
        sorted (map (\<lambda>st. st ! i) (sv0 # usts)))"
proof (intro conjI impI)
  assume m: "morph la stackable C statevars p = Some (S, st')"
  from morph_state [OF m] obtain k SA where
    k: "morph_kinematics la C statevars = Some k" and
    st: "st' = try_stack stackable [[k_CTS k], triu_1d C, triu_1d SA] statevars" by blast
  from morph_kinematics_history [OF k] have "k_CTS k = max (k_CTG k) (hd statevars)" by simp
  with k st show "\<exists>k SA. morph_kinematics la C statevars = Some k
         \<and> k_CTS k = max (k_CTG k) (hd statevars)
         \<and> st' = (if stackable then k_CTS k # triu_1d C @ triu_1d SA else statevars)"
    by (auto simp: try_stack_def)
  from m show "hd statevars \<le> hd st'" by (rule morph_history_le)
next
  assume "morph_run la p st0 calls = Some sts"
  then show "sorted (map hd (st0 # sts))" by (rule morph_run_sorted)
next
  assume u: "morph_uniaxial b l sv p' \<epsilon> = Some (f, st'') \<and> i < 21"
  then have m: "morph_uniaxial b l sv p' \<epsilon> = Some (f, st'')" and i: "i < 21" by simp_all
  from morph_uniaxial_history [OF m] i
  show "if b then \<exists>CT. tresca_uniaxial (l ! i) = Some CT \<and> st'' ! i = max CT (sv ! i)
        else st'' = sv"
    by (cases b) simp_all
  from m i show "sv ! i \<le> st'' ! i" by (rule morph_uniaxial_history_le)
next
  assume "uniaxial_run p' \<epsilon> sv0 ucalls = Some usts \<and> i < 21"
  then show "sorted (map (\<lambda>st. st ! i) (sv0 # usts))"
    using uniaxial_run_sorted by blast
qed

text \<open>
  Witness for C1: the stretch \<open>C_stretch\<close> applied twice from the zero state, and the
  stretch 1.2 in every direction from the zero state.
\<close>

theorem C1_history_ratchet_witness:
  "(\<exists>S st'. morph la_diag True C_stretch (replicate 13 0) p_morph = Some (S, st')
       \<and> hd st' = 7 / 2 \<and> hd (replicate 13 0) \<le> hd st')
   \<and> (\<exists>sts. morph_run la_diag p_morph (replicate 13 0) [(True, C_stretch), (False, C_stretch)]
               = Some sts \<and> sorted (map hd (replicate 13 0 # sts)))
   \<and> (\<exists>f st''. morph_uniaxial True (replicate 21 (12 / 10)) (replicate 84 0) p_directions
                   (1 / 10 ^ 8) = Some (f, st'')
         \<and> replicate 84 0 ! 0 \<le> st'' ! 0
         \<and> uniaxial_run p_directions (1 / 10 ^ 8) (replicate 84 0)
              [(True, replicate 21 (12 / 10))] = Some [st'']
         \<and> sorted (map (\<lambda>st. st ! 0) [replicate 84 0, st'']))"
proof -
  let ?st1 = "[7 / 2, 4, 0, 0, 1 / 2, 0, 1 / 2, 0, 0, 0, 0, 0, 0] :: real list"
  let ?calls = "[(True, C_stretch), (False, C_stretch)]"
  let ?l = "replicate 21 (12 / 10) :: real list"
  from morph_stretch [of True] obtain S where
    m1: "morph la_diag True C_stretch (replicate 13 0) p_morph = Some (S, ?st1)"
    by (auto simp: try_stack_def C_stretch_def)
  from morph_stretch_again [of False] obtain S' where
    m2: "morph la_diag False C_stretch ?st1 p_morph = Some (S', ?st1)"
    by auto
  have r: "morph_run la_diag p_morph (replicate 13 0) ?calls = Some [?st1, ?st1]"
    by (simp add: m1 m2)
  from uniform_step [of "12 / 10" 0 True 0 0 0] obtain f st'' where
    u: "morph_uniaxial True ?l (replicate 84 0) p_directions (1 / 10 ^ 8) = Some (f, st'')"
    unfolding zero_state_uniform by auto
  have ur: "uniaxial_run p_directions (1 / 10 ^ 8) (replicate 84 0) [(True, ?l)] = Some [st'']"
    by (simp only: uniaxial_run.simps u Option.bind.simps prod.case)
  have i: "(0::nat) < 21" by simp
  note inst = C1_history_ratchet [where la = la_diag and stackable = True and C = C_stretch
      and statevars = "replicate 13 0" and p = p_morph and S = S and st' = ?st1
      and ?st0.0 = "replicate 13 0" and calls = ?calls and sts = "[?st1, ?st1]"
      and b = True and l = ?l and sv = "replicate 84 0" and p' = p_directions
      and \<epsilon> = "1 / 10 ^ 8" and f = f and st'' = st'' and i = 0
      and ?sv0.0 = "replicate 84 0" and ucalls = "[(True, ?l)]" and usts = "[st'']"]
  from inst m1 have "hd (replicate 13 0) \<le> hd ?st1" by blast
  moreover from inst r have "sorted (map hd (replicate 13 0 # [?st1, ?st1]))" by blast
  moreover from inst u i have "replicate 84 0 ! 0 \<le> st'' ! 0" by blast
  moreover from inst ur i have "sorted (map (\<lambda>st. st ! 0) (replicate 84 0 # [st'']))" by blast
  ultimately show ?thesis using m1 r u ur by auto
qed

text \<open>
  C9: the uniaxial form with the parameters of the docstring, \<open>\<epsilon> = 1e-8\<close>, the zero
  state, and the stretches 1.0, 1.2, 1.0 in every direction, each call seeded with the
  state returned by the preceding call, whatever the stacking outcomes \<open>b1\<close>, \<open>b2\<close>, \<open>b3\<close>
  of the three calls. The instantaneous Tresca invariant at 1.2 is 91/150, which is
  0.6067 to four places; at 1.0 it is 0; all three calls return, and the history
  invariant returned by the third call is the one returned by the second (91/150 in
  every direction when the second call stacked its state).
\<close>

theorem C9_uniaxial_ratchet:
  "tresca_uniaxial (12 / 10) = Some (91 / 150)
   \<and> \<bar>91 / 150 - 6067 / 10000\<bar> < (1 / 10000 :: real)
   \<and> tresca_uniaxial 1 = Some 0
   \<and> (\<exists>st1 st2 st3.
        uniaxial_run p_directions (1 / 10 ^ 8) (replicate 84 0)
          [(b1, replicate 21 1), (b2, replicate 21 (12 / 10)), (b3, replicate 21 1)]
          = Some [st1, st2, st3]
        \<and> take 21 st3 = take 21 st2
        \<and> take 21 st2 = replicate 21 (if b2 then 91 / 150 else 0))"
proof -
  let ?run = "uniaxial_run p_directions (1 / 10 ^ 8)"
  have t2: "tresca_uniaxial (12 / 10) = Some (91 / 150)"
    by (simp add: tresca_uniaxial_def fdiv_def power2_eq_square)
  have t1: "tresca_uniaxial 1 = Some 0"
    by (simp add: tresca_uniaxial_def fdiv_def)
  have ap: "\<bar>91 / 150 - 6067 / 10000\<bar> < (1 / 10000 :: real)" by simp
  from uniform_step [of 1 0 b1 0 0 0] obtain f1 x1 y1 where
    s1: "morph_uniaxial b1 (replicate 21 1) (uniform_state 0 0 0 0) p_directions (1 / 10 ^ 8)
      = Some (f1, uniform_state 0 0 (if b1 then x1 else 0) (if b1 then y1 else 0))"
    by (cases b1) auto
  let ?st1 = "uniform_state 0 0 (if b1 then x1 else 0) (if b1 then y1 else 0)"
  from uniform_step [of "12 / 10" 0 b2 0 "if b1 then x1 else 0" "if b1 then y1 else 0"]
  obtain f2 x2 y2 where
    s2: "morph_uniaxial b2 (replicate 21 (12 / 10)) ?st1 p_directions (1 / 10 ^ 8)
      = Some (f2, uniform_state (if b2 then 91 / 150 else 0) (if b2 then 2 / 10 else 0) x2 y2)"
    by (cases b2) (auto simp: power2_eq_square)
  let ?c2 = "if b2 then 91 / 150 else 0 :: real"
  let ?n2 = "if b2 then 2 / 10 else 0 :: real"
  let ?st2 = "uniform_state ?c2 ?n2 x2 y2"
  have n2: "?n2 + 1 \<noteq> 0" by simp
  from uniform_step [of 1 ?n2 b3 ?c2 x2 y2, OF _ n2]
  obtain f3 x3 y3 where
    s3: "morph_uniaxial b3 (replicate 21 1) ?st2 p_directions (1 / 10 ^ 8)
      = Some (f3, uniform_state ?c2 (if b3 then 0 else ?n2) x3 y3)"
    by (cases b3) auto
  let ?st3 = "uniform_state ?c2 (if b3 then 0 else ?n2) x3 y3"
  have "?run (replicate 84 0)
          [(b1, replicate 21 1), (b2, replicate 21 (12 / 10)), (b3, replicate 21 1)]
          = Some [?st1, ?st2, ?st3]"
    unfolding zero_state_uniform
    by (simp only: uniaxial_run.simps s1 s2 s3 Option.bind.simps prod.case)
  moreover have "take 21 ?st3 = take 21 ?st2" by (simp only: take_uniform_state)
  moreover have "take 21 ?st2 = replicate 21 ?c2" by (simp only: take_uniform_state)
  ultimately show ?thesis using t1 t2 ap by blast
qed



section \<open>The corrector\<close>

lemma reference_norm_nonzero: "reference_norm r dof0 = Inr rref \<Longrightarrow> rref \<noteq> Num 0"
  by (auto simp: reference_norm_def Let_def split: sum.splits if_splits)

text \<open>
  C5: the reference value that divides the norm of the free residual is never zero, and
  whenever the norm of the residual on the prescribed unknowns is exactly zero the
  reference value is 1, so that the convergence ratio is the norm of the free residual
  divided by 1.
\<close>

theorem C5_rref_fallback:
  "(reference_norm r dof0 = Inr rref \<longrightarrow> rref \<noteq> Num 0)
   \<and> (np_take r dof0 = Inr r0 \<and> np_norm r0 = Num 0 \<and> np_take r dof1 = Inr r1 \<longrightarrow>
        reference_norm r dof0 = Inr (Num 1)
        \<and> convergence_ratio r dof1 dof0 = Inr (np_div (np_norm r1) (Num 1)))"
  by (auto simp: reference_norm_def convergence_ratio_def Let_def split: sum.splits if_splits)

text \<open>Witness for C5: the residual (0, 3) with the first unknown prescribed.\<close>

theorem C5_rref_fallback_witness:
  "reference_norm [Num 0, Num 3] [0] = Inr (Num 1) \<and> Num 1 \<noteq> Num 0
   \<and> np_take [Num 0, Num 3] [0] = Inr [Num 0] \<and> np_norm [Num 0] = Num 0
   \<and> np_take [Num 0, Num 3] [1] = Inr [Num 3]
   \<and> convergence_ratio [Num 0, Num 3] [1] [0] = Inr (Num 3)"
proof -
  have a: "np_take [Num 0, Num 3] [0] = Inr [Num 0]" by (simp add: np_take_def)
  have b: "np_norm [Num 0] = Num 0" by (simp add: np_norm_def)
  have c: "np_take [Num 0, Num 3] [1] = Inr [Num 3]" by (simp add: np_take_def)
  have d: "np_div (np_norm [Num 3]) (Num 1) = Num 3" by (simp add: np_norm_def)
  from C5_rref_fallback [of "[Num 0, Num 3]" "[0]" "Num 1" "[Num 0]" "[1]" "[Num 3]"] a b c d
  show ?thesis by simp
qed

lemma newton_body_Continue:
  assumes "newton_body c flds u0ext fun_f fun_A dof1 dof0 unstack tol l = Inr (Continue l')"
  shows "l_converged l' = l_converged l \<and> l_iterations l' = Suc (l_iterations l)"
  using assms
  by (auto simp: newton_body_def Let_def split: option.splits sum.splits if_splits)

lemma newton_body_Break:
  assumes "newton_body c flds u0ext fun_f fun_A dof1 dof0 unstack tol l = Inr (Break l')"
  shows "l_iterations l' = Suc (l_iterations l) \<and>
     (l' = l\<lparr>l_iterations := Suc (l_iterations l)\<rparr>
      \<or> (\<exists>norm_r. convergence_ratio (l_r l') dof1 dof0 = Inr norm_r \<and> np_less norm_r tol))"
  using assms
  by (auto simp: newton_body_def Let_def split: option.splits sum.splits if_splits)

lemma newton_body_nan:
  assumes "list_ex isnan (hd (np_split
     (partition_solve c (map (obj (l_store l)) flds) (l_r l) (l_K l) dof1 dof0 u0ext) unstack))"
  shows "newton_body c flds u0ext fun_f fun_A dof1 dof0 unstack tol l =
     Inr (Break (l\<lparr>l_iterations := Suc (l_iterations l)\<rparr>))"
  using assms by (simp add: newton_body_def Let_def)

lemma newton_iterations_count:
  "newton_iterations c flds u0ext fun_f fun_A dof1 dof0 unstack tol n l = Inr l' \<Longrightarrow>
     l_iterations l' \<le> l_iterations l + n"
proof (induction n arbitrary: l)
  case 0
  then show ?case by simp
next
  case (Suc n)
  show ?case
  proof (cases "newton_body c flds u0ext fun_f fun_A dof1 dof0 unstack tol l")
    case (Inl e)
    with Suc.prems show ?thesis by simp
  next
    case (Inr fl)
    show ?thesis
    proof (cases fl)
      case (Break l1)
      with Inr Suc.prems have "l' = l1" by simp
      with newton_body_Break Inr Break show ?thesis by fastforce
    next
      case (Continue l1)
      with Inr Suc.prems have
        "newton_iterations c flds u0ext fun_f fun_A dof1 dof0 unstack tol n l1 = Inr l'" by simp
      from Suc.IH [OF this] have "l_iterations l' \<le> l_iterations l1 + n" .
      moreover from newton_body_Continue Inr Continue
      have "l_iterations l1 = Suc (l_iterations l)" by fastforce
      ultimately show ?thesis by simp
    qed
  qed
qed

lemma newton_iterations_converged:
  "newton_iterations c flds u0ext fun_f fun_A dof1 dof0 unstack tol n l = Inr l' \<Longrightarrow>
     \<not> l_converged l \<Longrightarrow> l_converged l' \<Longrightarrow>
     \<exists>norm_r. convergence_ratio (l_r l') dof1 dof0 = Inr norm_r \<and> np_less norm_r tol"
proof (induction n arbitrary: l)
  case 0
  then show ?case by simp
next
  case (Suc n)
  show ?case
  proof (cases "newton_body c flds u0ext fun_f fun_A dof1 dof0 unstack tol l")
    case (Inl e)
    with Suc.prems show ?thesis by simp
  next
    case (Inr fl)
    show ?thesis
    proof (cases fl)
      case (Break l1)
      with Inr Suc.prems have eq: "l' = l1" by simp
      from newton_body_Break Inr Break have
        "l1 = l\<lparr>l_iterations := Suc (l_iterations l)\<rparr>
         \<or> (\<exists>norm_r. convergence_ratio (l_r l1) dof1 dof0 = Inr norm_r \<and> np_less norm_r tol)"
        by fastforce
      with eq Suc.prems show ?thesis by auto
    next
      case (Continue l1)
      with Inr Suc.prems have
        r: "newton_iterations c flds u0ext fun_f fun_A dof1 dof0 unstack tol n l1 = Inr l'" by simp
      from newton_body_Continue Inr Continue have "l_converged l1 = l_converged l" by fastforce
      with Suc.prems have "\<not> l_converged l1" by simp
      from Suc.IH [OF r this Suc.prems(3)] show ?thesis .
    qed
  qed
qed

lemma newtonrhapson_Inr:
  assumes "newtonrhapson c s flds u0ext fun_f fun_A dof1 dof0 unstack maxiter tol = Inr (Result, s')"
  shows "\<exists>l0 lx. newton_start c s flds fun_f fun_A = Inr l0
     \<and> newton_iterations c flds u0ext fun_f fun_A dof1 dof0 unstack tol (nat maxiter) l0 = Inr lx
     \<and> (res_fields Result, s') = copy_fields (l_store lx) flds
     \<and> res_r Result = l_r lx \<and> res_converged Result = l_converged lx"
  using assms
  by (auto simp: newtonrhapson_def Let_def split: sum.splits prod.splits)

lemma newton_start_Inr:
  "newton_start c s flds fun_f fun_A = Inr l0 \<Longrightarrow>
     \<not> l_converged l0 \<and> l_iterations l0 = 0 \<and> l_store l0 = s"
  by (auto simp: newton_start_def Let_def split: option.splits)

text \<open>
  C7: the loop enters its body at most \<open>n\<close> times when \<open>n\<close> iterations remain, so at
  most \<^verbatim>\<open>maxiter\<close> times in \<^verbatim>\<open>newtonrhapson\<close>; the corrector always ends, and the
  converged flag of its result is true only if the returned residual passed the
  tolerance test, so it is false when the tolerance was not met within the cap.
\<close>

theorem C7_iteration_cap:
  "(newton_iterations c flds u0ext fun_f fun_A dof1 dof0 unstack tol n l = Inr l' \<longrightarrow>
      l_iterations l' \<le> l_iterations l + n)
   \<and> (newtonrhapson c s flds u0ext fun_f fun_A dof1 dof0 unstack maxiter tol = Inr (Result, s') \<longrightarrow>
        (\<exists>l0 lx. newton_start c s flds fun_f fun_A = Inr l0 \<and> l_iterations l0 = 0
           \<and> newton_iterations c flds u0ext fun_f fun_A dof1 dof0 unstack tol (nat maxiter) l0
               = Inr lx
           \<and> l_iterations lx \<le> nat maxiter \<and> res_converged Result = l_converged lx)
        \<and> (res_converged Result \<longrightarrow>
             (\<exists>norm_r. convergence_ratio (res_r Result) dof1 dof0 = Inr norm_r
                \<and> np_less norm_r tol)))"
proof (intro conjI impI)
  assume "newton_iterations c flds u0ext fun_f fun_A dof1 dof0 unstack tol n l = Inr l'"
  then show "l_iterations l' \<le> l_iterations l + n" by (rule newton_iterations_count)
next
  assume a: "newtonrhapson c s flds u0ext fun_f fun_A dof1 dof0 unstack maxiter tol = Inr (Result, s')"
  from newtonrhapson_Inr [OF a] obtain l0 lx where
    st: "newton_start c s flds fun_f fun_A = Inr l0" and
    it: "newton_iterations c flds u0ext fun_f fun_A dof1 dof0 unstack tol (nat maxiter) l0 = Inr lx" and
    r: "res_r Result = l_r lx" and cv: "res_converged Result = l_converged lx"
    by blast
  from newton_start_Inr [OF st] have z: "l_iterations l0 = 0" and nc: "\<not> l_converged l0" by simp_all
  from newton_iterations_count [OF it] z have "l_iterations lx \<le> nat maxiter" by simp
  with st it z cv show "\<exists>l0 lx. newton_start c s flds fun_f fun_A = Inr l0 \<and> l_iterations l0 = 0
           \<and> newton_iterations c flds u0ext fun_f fun_A dof1 dof0 unstack tol (nat maxiter) l0
               = Inr lx
           \<and> l_iterations lx \<le> nat maxiter \<and> res_converged Result = l_converged lx"
    by blast
  assume "res_converged Result"
  with cv have "l_converged lx" by simp
  from newton_iterations_converged [OF it nc this] r
  show "\<exists>norm_r. convergence_ratio (res_r Result) dof1 dof0 = Inr norm_r \<and> np_less norm_r tol"
    by simp
qed

lemma entered_flag:
  "entered c flds u0ext fun_f fun_A dof1 dof0 unstack tol l0 l \<Longrightarrow>
     l_converged l = l_converged l0"
  by (induction rule: entered.induct) (auto dest: newton_body_Continue)

lemma entered_skip:
  "entered c flds u0ext fun_f fun_A dof1 dof0 unstack tol l0 l \<Longrightarrow>
     l_iterations l0 \<le> l_iterations l \<and>
     (\<forall>n. newton_iterations c flds u0ext fun_f fun_A dof1 dof0 unstack tol
            (n + (l_iterations l - l_iterations l0)) l0
         = newton_iterations c flds u0ext fun_f fun_A dof1 dof0 unstack tol n l)"
proof (induction rule: entered.induct)
  case entered_first
  show ?case by simp
next
  case (entered_next l l')
  from newton_body_Continue [OF entered_next.hyps(2)]
  have it: "l_iterations l' = Suc (l_iterations l)" by simp
  from entered_next.IH have le: "l_iterations l0 \<le> l_iterations l" and
    sk: "\<And>n. newton_iterations c flds u0ext fun_f fun_A dof1 dof0 unstack tol
            (n + (l_iterations l - l_iterations l0)) l0
         = newton_iterations c flds u0ext fun_f fun_A dof1 dof0 unstack tol n l" by blast+
  have "newton_iterations c flds u0ext fun_f fun_A dof1 dof0 unstack tol
            (n + (l_iterations l' - l_iterations l0)) l0
         = newton_iterations c flds u0ext fun_f fun_A dof1 dof0 unstack tol n l'" for n
  proof -
    have "n + (l_iterations l' - l_iterations l0) = Suc n + (l_iterations l - l_iterations l0)"
      using it le by simp
    then have "newton_iterations c flds u0ext fun_f fun_A dof1 dof0 unstack tol
            (n + (l_iterations l' - l_iterations l0)) l0
       = newton_iterations c flds u0ext fun_f fun_A dof1 dof0 unstack tol (Suc n) l"
      using sk [of "Suc n"] by (simp only:)
    also have "\<dots> = newton_iterations c flds u0ext fun_f fun_A dof1 dof0 unstack tol n l'"
      using entered_next.hyps(2) by simp
    finally show ?thesis .
  qed
  with it le show ?case by simp
qed

text \<open>
  C2 (amended): in every Newton iteration of \<^verbatim>\<open>newtonrhapson\<close>, if the first field's
  part of the correction contains a not-a-number value, the loop is left at once: no
  field is changed in this iteration, and the corrector returns the deep copy of the
  fields as they were when the iteration was entered, with the converged flag false.
\<close>

theorem C2_nan_in_first_field_stops:
  "newton_start c s flds fun_f fun_A = Inr l0
   \<and> entered c flds u0ext fun_f fun_A dof1 dof0 unstack tol l0 l
   \<and> l_iterations l < nat maxiter
   \<and> list_ex isnan (hd (np_split
        (partition_solve c (map (obj (l_store l)) flds) (l_r l) (l_K l) dof1 dof0 u0ext) unstack))
   \<longrightarrow> newton_body c flds u0ext fun_f fun_A dof1 dof0 unstack tol l
         = Inr (Break (l\<lparr>l_iterations := Suc (l_iterations l)\<rparr>))
       \<and> (\<exists>Result s'. newtonrhapson c s flds u0ext fun_f fun_A dof1 dof0 unstack maxiter tol
             = Inr (Result, s')
           \<and> \<not> res_converged Result
           \<and> (res_fields Result, s') = copy_fields (l_store l) flds
           \<and> res_r Result = l_r l)"
proof (intro impI, elim conjE)
  assume st: "newton_start c s flds fun_f fun_A = Inr l0"
    and en: "entered c flds u0ext fun_f fun_A dof1 dof0 unstack tol l0 l"
    and lt: "l_iterations l < nat maxiter"
    and nan: "list_ex isnan (hd (np_split
        (partition_solve c (map (obj (l_store l)) flds) (l_r l) (l_K l) dof1 dof0 u0ext) unstack))"
  let ?l' = "l\<lparr>l_iterations := Suc (l_iterations l)\<rparr>"
  from newton_body_nan [OF nan]
  have body: "newton_body c flds u0ext fun_f fun_A dof1 dof0 unstack tol l = Inr (Break ?l')" .
  from newton_start_Inr [OF st] have z: "l_iterations l0 = 0" and nc: "\<not> l_converged l0"
    by simp_all
  from entered_flag [OF en] nc have ncl: "\<not> l_converged l" by simp
  from lt obtain k where k: "nat maxiter = Suc k + l_iterations l"
    by (metis add.commute less_imp_Suc_add add_Suc_right add_Suc)
  from entered_skip [OF en] have "newton_iterations c flds u0ext fun_f fun_A dof1 dof0 unstack tol
            (Suc k + (l_iterations l - l_iterations l0)) l0
         = newton_iterations c flds u0ext fun_f fun_A dof1 dof0 unstack tol (Suc k) l"
    by blast
  with z
  have "newton_iterations c flds u0ext fun_f fun_A dof1 dof0 unstack tol (Suc k + l_iterations l) l0
         = newton_iterations c flds u0ext fun_f fun_A dof1 dof0 unstack tol (Suc k) l"
    by (simp del: newton_iterations.simps)
  also have "\<dots> = Inr ?l'" using body by simp
  finally have it: "newton_iterations c flds u0ext fun_f fun_A dof1 dof0 unstack tol
      (nat maxiter) l0 = Inr ?l'" using k by (simp del: newton_iterations.simps)
  obtain flds' s' where cp: "copy_fields (l_store l) flds = (flds', s')"
    by (cases "copy_fields (l_store l) flds")
  have "newtonrhapson c s flds u0ext fun_f fun_A dof1 dof0 unstack maxiter tol
     = Inr (\<lparr>res_fields = flds', res_r = l_r l, res_K = l_K l, res_F = l_F l,
              res_f = l_f l, res_A = l_A l, res_unstack = unstack,
              res_converged = l_converged l\<rparr>, s')"
    by (simp add: newtonrhapson_def st it cp)
  with ncl cp body show "newton_body c flds u0ext fun_f fun_A dof1 dof0 unstack tol l
         = Inr (Break ?l')
       \<and> (\<exists>Result s'. newtonrhapson c s flds u0ext fun_f fun_A dof1 dof0 unstack maxiter tol
             = Inr (Result, s')
           \<and> \<not> res_converged Result
           \<and> (res_fields Result, s') = copy_fields (l_store l) flds
           \<and> res_r Result = l_r l)"
    by simp
qed

lemmas plain_eval = newtonrhapson_def newton_start_def newton_body_def plain_collab_def
  ones_store_def zero_store_def index_def np_split_def convergence_ratio_def reference_norm_def
  np_take_def np_norm_def copy_fields_def isnan_def plain_fun_def Let_def eval_nat_numeral

lemma start_ones: "newton_start plain_collab ones_store [0, 1] plain_fun plain_fun = Inr l_ones"
  by (simp add: newton_start_def plain_collab_def ones_store_def index_def plain_fun_def l_ones_def)

text \<open>
  C2 (as stated): a not-a-number value in any field's part of the correction stops the
  corrector before the correction is applied. This fails for a not-a-number value in
  the second field's part only: the correction (0, NaN) is added to both fields, the
  second field becomes NaN and the residual is evaluated again.
\<close>

theorem C2_nan_in_second_field_applied:
  "list_ex isnan
     (partition_solve plain_collab [[Num 1], [Num 1]] [Num 1, Num 1] () [1] [0] [Num 0, NaN])
   \<and> (case newtonrhapson plain_collab ones_store [0, 1] [Num 0, NaN] plain_fun plain_fun
              [1] [0] [1] 1 (1 / 10 ^ 6) of
         Inl e \<Rightarrow> False
       | Inr (Result, s') \<Rightarrow> obj s' 1 = [NaN] \<and> res_r Result = [Num 1, NaN])
   \<and> obj ones_store 1 = [Num 1]"
  by (simp add: plain_eval)

text \<open>Witness for C2: the correction (NaN, 0) in the first iteration.\<close>

theorem C2_nan_in_first_field_stops_witness:
  "\<exists>Result s'. newtonrhapson plain_collab ones_store [0, 1] [NaN, Num 0] plain_fun plain_fun
        [1] [0] [1] 1 (1 / 10 ^ 6) = Inr (Result, s')
     \<and> \<not> res_converged Result \<and> obj s' 0 = [Num 1] \<and> obj s' 1 = [Num 1]
     \<and> res_r Result = [Num 1, Num 1]"
proof -
  have en: "entered plain_collab [0, 1] [NaN, Num 0] plain_fun plain_fun [1] [0] [1] (1 / 10 ^ 6)
      l_ones l_ones" by (rule entered_first)
  have lt: "l_iterations l_ones < nat 1" by (simp add: l_ones_def)
  have nan: "list_ex isnan (hd (np_split
        (partition_solve plain_collab (map (obj (l_store l_ones)) [0, 1]) (l_r l_ones) (l_K l_ones)
           [1] [0] [NaN, Num 0]) [1]))"
    by (simp add: plain_collab_def np_split_def isnan_def)
  from C2_nan_in_first_field_stops [where c = plain_collab and s = ones_store and flds = "[0, 1]"
      and fun_f = plain_fun and fun_A = plain_fun and ?l0.0 = l_ones and l = l_ones
      and ?u0ext.0 = "[NaN, Num 0]" and ?dof1.0 = "[1]" and ?dof0.0 = "[0]" and unstack = "[1]"
      and tol = "1 / 10 ^ 6" and maxiter = 1] start_ones en lt nan
  obtain Result s' where
    r: "newtonrhapson plain_collab ones_store [0, 1] [NaN, Num 0] plain_fun plain_fun
        [1] [0] [1] 1 (1 / 10 ^ 6) = Inr (Result, s')" and
    nc: "\<not> res_converged Result" and
    cp: "(res_fields Result, s') = copy_fields (l_store l_ones) [0, 1]" and
    rr: "res_r Result = l_r l_ones"
    by blast
  from cp have "s' = snd (copy_fields (l_store l_ones) [0, 1])" by (metis snd_conv)
  then have "obj s' 0 = [Num 1]" "obj s' 1 = [Num 1]"
    by (simp_all add: copy_fields_def l_ones_def ones_store_def eval_nat_numeral)
  with r nc rr show ?thesis by (simp add: l_ones_def)
qed

text \<open>
  Witness for C7: a residual that no correction changes, with a cap of two iterations.
\<close>

theorem C7_iteration_cap_witness:
  "\<exists>Result s' lx. newtonrhapson plain_collab ones_store [0] [Num 0] plain_fun plain_fun [0] [] [] 2
        (1 / 10 ^ 6) = Inr (Result, s')
     \<and> \<not> res_converged Result
     \<and> newton_iterations plain_collab [0] [Num 0] plain_fun plain_fun [0] [] [] (1 / 10 ^ 6) 2
          \<lparr>l_store = ones_store, l_r = [Num 1], l_K = (), l_F = (), l_f = (), l_A = (),
            l_converged = False, l_iterations = 0\<rparr> = Inr lx
     \<and> l_iterations lx \<le> 0 + 2"
proof -
  let ?l0 = "\<lparr>l_store = ones_store, l_r = [Num 1], l_K = (), l_F = (), l_f = (), l_A = (),
            l_converged = False, l_iterations = 0\<rparr> :: (npfloat list, unit, unit) locals"
  obtain Result s' where
    r: "newtonrhapson plain_collab ones_store [0] [Num 0] plain_fun plain_fun [0] [] [] 2
        (1 / 10 ^ 6) = Inr (Result, s')" and nc: "\<not> res_converged Result"
    by (simp add: plain_eval)
  obtain lx where
    it: "newton_iterations plain_collab [0] [Num 0] plain_fun plain_fun [0] [] [] (1 / 10 ^ 6) 2
       ?l0 = Inr lx"
    by (simp add: plain_eval)
  note inst = C7_iteration_cap [where c = plain_collab and s = ones_store and flds = "[0]"
      and fun_f = plain_fun and fun_A = plain_fun and ?u0ext.0 = "[Num 0]" and ?dof1.0 = "[0]"
      and ?dof0.0 = "[]" and unstack = "[]" and tol = "1 / 10 ^ 6" and maxiter = 2
      and Result = Result and s' = s' and n = 2 and l = ?l0 and l' = lx]
  from inst it have "l_iterations lx \<le> l_iterations ?l0 + 2" by blast
  then have c: "l_iterations lx \<le> 0 + 2" by simp
  from inst r have "res_converged Result \<longrightarrow>
      (\<exists>norm_r. convergence_ratio (res_r Result) [0] [] = Inr norm_r \<and> np_less norm_r (1 / 10 ^ 6))"
    by blast
  with r nc it c show ?thesis by blast
qed

section \<open>The increment driver and the residual ratio\<close>







lemma unmasked_rows:
  "length es = length rxy \<Longrightarrow> length rx = length rxy \<Longrightarrow> list_all (\<lambda>e. e \<noteq> 1) es \<Longrightarrow>
     map2 (\<lambda>e (row_xy, row_x). if e = (1::int) then row_x else row_xy) es (zip rxy rx) = rxy"
proof (induction es arbitrary: rxy rx)
  case Nil
  then show ?case by simp
next
  case (Cons e es)
  then obtain a as b bs where "rxy = a # as" "rx = b # bs"
    by (cases rxy; cases rx) simp_all
  with Cons show ?case by simp
qed

lemma zero_to_nan_no_zero:
  "Num 0 \<notin> set (concat (map (map (\<lambda>x. if x = Num 0 then NaN else x)) A))"
  by auto

text \<open>
  C10: \<^verbatim>\<open>dofresiduals\<close> leaves the heap with the array \<^verbatim>\<open>rref\<close> overwritten in place,
  every zero entry replaced by NaN and nothing else changed, whatever value or
  exception the call ends with; no zero is left in the divisor, and the ratio that is
  returned is formed with the overwritten array.
\<close>

theorem C10_rref_overwritten_in_place:
  "snd (dofresiduals elements_per_node h r rref dof1)
     = h(rref := map (map (\<lambda>x. if x = Num 0 then NaN else x)) (h rref))
   \<and> Num 0 \<notin> set (concat (snd (dofresiduals elements_per_node h r rref dof1) rref))
   \<and> (r \<noteq> rref \<and> map length (h r) = map length (h rref)
        \<and> length elements_per_node = length (h r) \<and> list_all (\<lambda>e. e \<noteq> 1) elements_per_node
      \<longrightarrow> fst (dofresiduals elements_per_node h r rref None)
            = Inr (Full (map2 (map2 np_div) (h r)
                (snd (dofresiduals elements_per_node h r rref None) rref))))"
proof -
  let ?h = "h(rref := map (map (\<lambda>x. if x = Num 0 then NaN else x)) (h rref))"
  have s: "snd (dofresiduals elements_per_node h r rref d) = ?h" for d
    by (simp add: dofresiduals_def Let_def)
  have z: "Num 0 \<notin> set (concat (?h rref))"
    using zero_to_nan_no_zero [of "h rref"] by simp
  have f: "fst (dofresiduals elements_per_node h r rref None)
            = Inr (Full (map2 (map2 np_div) (h r) (?h rref)))"
    if "r \<noteq> rref" and sh: "map length (h r) = map length (h rref)"
      and len: "length elements_per_node = length (h r)"
      and m: "list_all (\<lambda>e. e \<noteq> 1) elements_per_node"
  proof -
    from sh have l2: "length (h r) = length (h rref)" by (rule map_eq_imp_length_eq)
    have sh': "map length (?h r) = map length (?h rref)"
      using that(1) sh by (simp add: comp_def)
    have hr: "?h r = h r" using that(1) by simp
    let ?rxy = "map2 (map2 np_div) (h r) (?h rref)"
    have lr: "length elements_per_node = length ?rxy" using len l2 by simp
    have "map2 (\<lambda>e (row_xy, row_x). if e = 1 then row_x else row_xy) elements_per_node
            (zip ?rxy (h r)) = ?rxy"
      using lr l2 m by (intro unmasked_rows) simp_all
    then show ?thesis
      using sh' lr unfolding dofresiduals_def Let_def hr by (simp add: hr)
  qed
  from s z f show ?thesis by (simp only:) blast
qed

text \<open>Witness for C10: the residual (1, 4) and the reference (0, 2).\<close>

theorem C10_rref_overwritten_in_place_witness:
  "snd (dofresiduals [2] two_arrays 0 1 None) 1 = [[NaN, Num 2]]
   \<and> snd (dofresiduals [2] two_arrays 0 1 None) 0 = [[Num 1, Num 4]]
   \<and> two_arrays 1 = [[Num 0, Num 2]]
   \<and> fst (dofresiduals [2] two_arrays 0 1 None) = Inr (Full [[NaN, Num 2]])"
proof -
  have a: "(0::nat) \<noteq> 1 \<and> map length (two_arrays 0) = map length (two_arrays 1)
        \<and> length [2::int] = length (two_arrays 0) \<and> list_all (\<lambda>e. e \<noteq> 1) [2::int]"
    by (simp add: two_arrays_def)
  from C10_rref_overwritten_in_place [of "[2]" two_arrays 0 1 None] a
  have s: "snd (dofresiduals [2] two_arrays 0 1 None)
     = two_arrays(1 := map (map (\<lambda>x. if x = Num 0 then NaN else x)) (two_arrays 1))"
    and f: "fst (dofresiduals [2] two_arrays 0 1 None)
            = Inr (Full (map2 (map2 np_div) (two_arrays 0)
                (snd (dofresiduals [2] two_arrays 0 1 None) 1)))"
    by blast+
  have s1: "snd (dofresiduals [2] two_arrays 0 1 None) 1 = [[NaN, Num 2]]"
    unfolding s by (simp add: two_arrays_def)
  have s0: "snd (dofresiduals [2] two_arrays 0 1 None) 0 = [[Num 1, Num 4]]"
    unfolding s by (simp add: two_arrays_def)
  have "fst (dofresiduals [2] two_arrays 0 1 None) = Inr (Full [[NaN, Num 2]])"
    unfolding f s1 by (simp add: two_arrays_def)
  with s1 s0 show ?thesis by (simp add: two_arrays_def)
qed

end
